theory Spec2Isabelle
  imports Complex_Main "HOL-Library.AList" "HOL-Library.Multiset"
begin

section \<open>Energy aggregation backends: a shallow embedding\<close>

text \<open>
  The repository holds three backend programs with the same structure:
  \<^item> \<^verbatim>\<open>src/unnamed/part_000\<close>, the InfluxDB backend with separate buckets for readings and
    meters. Its functions keep their source names here.
  \<^item> the first program of \<^verbatim>\<open>src/unnamed/part_001\<close> (lines 1 to 469), the Elasticsearch
    backend. Functions that exist only there carry the suffix \<open>_es\<close>.
  \<^item> the second program of \<^verbatim>\<open>src/unnamed/part_001\<close> (lines 470 to 934), the single-bucket
    InfluxDB backend. Functions that exist only there carry the suffix \<open>_p1\<close>, and so do the
    functions whose text is the same in both programs of that file.

  Modelling conventions.
  \<^item> A JavaScript string is a list of 8-bit characters (code points below U+0100).
  \<^item> A JavaScript number holding an energy value is an exact rational: sums and differences
    are exact, and the rounding done by \<^verbatim>\<open>toFixed(3)\<close> is written out. Binary floating point
    is not modelled.
  \<^item> An instant is an integer count of milliseconds since 1970-01-01T00:00:00Z, the value a
    JavaScript \<^verbatim>\<open>Date\<close> holds; an ISO-8601 text of an instant is represented by that count.
  \<^item> A plain object used as a dictionary is an association list of its own properties in
    insertion order, with distinct keys. Properties inherited from the prototype of
    objects are not part of the model.
  \<^item> An exception is a value \<open>Inl e\<close> of a sum type; \<^verbatim>\<open>null\<close> and \<^verbatim>\<open>undefined\<close> arguments
    are \<open>None\<close>.
\<close>

subsection \<open>Errors and strings\<close>

datatype js_error = TypeError | QueryError

definition is_upper_code :: "nat \<Rightarrow> bool" where
  "is_upper_code n \<longleftrightarrow> (65 \<le> n \<and> n \<le> 90) \<or> (192 \<le> n \<and> n \<le> 222 \<and> n \<noteq> 215)"

text \<open>\<^verbatim>\<open>String.prototype.toLowerCase\<close> on one character: an upper-case letter (A to Z, and the
  accented capitals U+00C0 to U+00DE except the multiplication sign) moves up by 32, which
  sets bit 5 of its code.\<close>

definition toLowerCase_char :: "char \<Rightarrow> char" where
  "toLowerCase_char c =
     (if is_upper_code (of_char c)
      then (case c of Char b0 b1 b2 b3 b4 b5 b6 b7 \<Rightarrow> Char b0 b1 b2 b3 b4 True b6 b7)
      else c)"

definition toLowerCase :: "string \<Rightarrow> string" where
  "toLowerCase s = map toLowerCase_char s"

text \<open>The class \<^verbatim>\<open>\s\<close> of a regular expression, below U+0100: tab, line feed, vertical tab,
  form feed, carriage return, space and no-break space.\<close>

definition is_whitespace :: "char \<Rightarrow> bool" where
  "is_whitespace c \<longleftrightarrow> (of_char c :: nat) \<in> {9, 10, 11, 12, 13, 32, 160}"

subsection \<open>MAC normalizer\<close>

text \<open>The character class \<^verbatim>\<open>[:\s-]\<close> of part_000, line 75.\<close>

definition is_mac_delimiter :: "char \<Rightarrow> bool" where
  "is_mac_delimiter c \<longleftrightarrow> c = CHR '':'' \<or> is_whitespace c \<or> c = CHR ''-''"

definition strip_delimiters :: "string \<Rightarrow> string" where
  "strip_delimiters s = filter (\<lambda>c. \<not> is_mac_delimiter c) s"

text \<open>part_000, lines 72 to 76: \<^verbatim>\<open>if (!mac) return null\<close> covers \<^verbatim>\<open>null\<close>, \<^verbatim>\<open>undefined\<close> and the
  empty string; otherwise the delimiters are removed and the rest is lower-cased.\<close>

definition normalizeMacAddress :: "string option \<Rightarrow> string option" where
  "normalizeMacAddress mac =
     (case mac of
        None \<Rightarrow> None
      | Some s \<Rightarrow> if s = [] then None else Some (toLowerCase (strip_delimiters s)))"

text \<open>part_001, lines 68 and 540: \<^verbatim>\<open>(mac) => mac.toLowerCase()\<close>. Reading the property
  \<^verbatim>\<open>toLowerCase\<close> of \<^verbatim>\<open>null\<close> or \<^verbatim>\<open>undefined\<close> throws a TypeError.\<close>

definition normalizeMacAddress_p1 :: "string option \<Rightarrow> js_error + string" where
  "normalizeMacAddress_p1 mac =
     (case mac of None \<Rightarrow> Inl TypeError | Some s \<Rightarrow> Inr (toLowerCase s))"

text \<open>The textual forms of a hardware address: its digits written in pairs with a delimiter
  text between consecutive pairs (\<open>'':''\<close>, \<open>''-''\<close>, or nothing).\<close>

fun render_mac :: "string \<Rightarrow> string \<Rightarrow> string" where
  "render_mac d (a # b # c # rest) = a # b # d @ render_mac d (c # rest)"
| "render_mac d ds = ds"

definition is_hex_digit :: "char \<Rightarrow> bool" where
  "is_hex_digit c \<longleftrightarrow> c \<in> set ''0123456789abcdefABCDEF''"

subsection \<open>Objects as dictionaries\<close>

type_synonym 'v js_object = "(string \<times> 'v) list"






text \<open>The truth value of a string that may be missing: \<^verbatim>\<open>undefined\<close>, \<^verbatim>\<open>null\<close> and the empty
  string are false.\<close>

definition truthy :: "string option \<Rightarrow> bool" where
  "truthy s \<longleftrightarrow> (case s of None \<Rightarrow> False | Some t \<Rightarrow> t \<noteq> [])"

subsection \<open>Room identifiers as stored\<close>

text \<open>A room identifier read from storage is a number or a string; a missing field is
  \<^verbatim>\<open>undefined\<close>, and a field can be \<^verbatim>\<open>null\<close>.\<close>

datatype room_value = RoomNumber int | RoomString string

datatype room_field = Undefined | Null | Value room_value

fun digits_of :: "nat \<Rightarrow> string" where
  "digits_of n =
     (if n < 10 then [''0123456789'' ! n]
      else digits_of (n div 10) @ [''0123456789'' ! (n mod 10)])"

declare digits_of.simps [simp del]

definition number_toString :: "int \<Rightarrow> string" where
  "number_toString i = (if i < 0 then CHR ''-'' # digits_of (nat (- i)) else digits_of (nat i))"

fun room_toString :: "room_value \<Rightarrow> string" where
  "room_toString (RoomNumber i) = number_toString i"
| "room_toString (RoomString s) = s"

fun room_truthy :: "room_field \<Rightarrow> bool" where
  "room_truthy Undefined = False"
| "room_truthy Null = False"
| "room_truthy (Value (RoomNumber i)) = (i \<noteq> 0)"
| "room_truthy (Value (RoomString s)) = (s \<noteq> [])"

subsection \<open>Device mapping data\<close>

record mac_info =
  normalized :: string
  original :: string

text \<open>The mapping of part_000 (lines 155 to 159). Room identifiers are stored as strings.\<close>

record mapping_data =
  macToRoomMap :: "string js_object"
  roomToMacsMap :: "mac_info list js_object"
  originalMacFormats :: "string js_object"

subsection \<open>Energy delta aggregator\<close>












text \<open>part_001, lines 650 to 657: the groups are keyed by the row's own \<^verbatim>\<open>mac_address\<close>; a
  missing value becomes the property name \<^verbatim>\<open>undefined\<close>.\<close>

definition property_key :: "string option \<Rightarrow> string" where
  "property_key v = (case v of None \<Rightarrow> ''undefined'' | Some s \<Rightarrow> s)"









subsection \<open>The aggregation, stated per device\<close>













subsection \<open>Device mapping cache\<close>

text \<open>A row of the meters query (part_000, lines 101 to 112; part_001, lines 84 to 92 and
  557 to 567).\<close>

record meter_row =
  meter_mac :: "string option"
  room_id :: room_field

definition CACHE_DURATION :: int where
  "CACHE_DURATION = 5 * 60 * 1000"

definition empty_mapping :: mapping_data where
  "empty_mapping = \<lparr>macToRoomMap = [], roomToMacsMap = [], originalMacFormats = []\<rparr>"

text \<open>The module-level variables \<^verbatim>\<open>metersCache\<close> and \<^verbatim>\<open>cacheTimestamp\<close>; \<open>None\<close> is \<^verbatim>\<open>null\<close>.\<close>

record cache_state =
  metersCache :: "mapping_data option"
  cacheTimestamp :: "int option"

text \<open>The test \<^verbatim>\<open>metersCache && cacheTimestamp && now - cacheTimestamp < CACHE_DURATION\<close>:
  an object is true, a number is true unless it is 0.\<close>

definition cache_valid :: "int \<Rightarrow> 'c option \<Rightarrow> int option \<Rightarrow> bool" where
  "cache_valid now cache ts \<longleftrightarrow>
     cache \<noteq> None \<and> (case ts of None \<Rightarrow> False | Some t \<Rightarrow> t \<noteq> 0 \<and> now - t < CACHE_DURATION)"

text \<open>part_000, lines 119 to 139: the body of \<^verbatim>\<open>rows.forEach\<close>. The call
  \<^verbatim>\<open>row.room_id.toString()\<close> throws when the field is \<^verbatim>\<open>null\<close>.\<close>

definition add_meter_row :: "mapping_data \<Rightarrow> meter_row \<Rightarrow> js_error + mapping_data" where
  "add_meter_row md row =
     (if truthy (meter_mac row) \<and> room_id row \<noteq> Undefined then
        (let originalMac = property_key (meter_mac row);
             normalizedMac = normalizeMacAddress (meter_mac row)
         in case room_id row of
              Undefined \<Rightarrow> Inr md
            | Null \<Rightarrow> Inl TypeError
            | Value v \<Rightarrow>
                (let roomId = room_toString v in
                 case normalizedMac of
                   None \<Rightarrow> Inr md
                 | Some k \<Rightarrow>
                     if k = [] then Inr md
                     else Inr \<lparr>macToRoomMap = AList.update k roomId (macToRoomMap md),
                               roomToMacsMap =
                                 AList.update roomId
                                   ((case map_of (roomToMacsMap md) roomId of
                                       None \<Rightarrow> [] | Some infos \<Rightarrow> infos)
                                    @ [\<lparr>normalized = k, original = originalMac\<rparr>])
                                   (roomToMacsMap md),
                               originalMacFormats =
                                 AList.update k originalMac (originalMacFormats md)\<rparr>))
      else Inr md)"

fun build_mapping :: "mapping_data \<Rightarrow> meter_row list \<Rightarrow> js_error + mapping_data" where
  "build_mapping md [] = Inr md"
| "build_mapping md (row # rows) =
     (case add_meter_row md row of
        Inl e \<Rightarrow> Inl e
      | Inr md' \<Rightarrow> build_mapping md' rows)"

text \<open>part_000, lines 89 to 176. The argument \<open>query\<close> is the outcome of
  \<^verbatim>\<open>await queryApi.collectRows(query)\<close>, consulted only when the cache is not valid: \<open>Inl\<close>
  when the storage call rejects. The \<^verbatim>\<open>try\<close> block is the inner \<^theory_text>\<open>case\<close>, the
  \<^verbatim>\<open>catch\<close> block its \<open>Inl\<close> branch. The result is the value the promise resolves to, or
  \<open>Inl\<close> if it rejected, together with the new state of the two variables.\<close>

definition getMetersMapping :: "int \<Rightarrow> js_error + meter_row list \<Rightarrow> cache_state \<Rightarrow> (js_error + mapping_data) \<times> cache_state" where
  "getMetersMapping now query st =
     (case (if cache_valid now (metersCache st) (cacheTimestamp st) then metersCache st
            else None) of
        Some cached \<Rightarrow> (Inr cached, st)
      | None \<Rightarrow>
          (case (case query of Inl e \<Rightarrow> Inl e | Inr rows \<Rightarrow> build_mapping empty_mapping rows) of
             Inr mappingData \<Rightarrow>
               (Inr mappingData, st\<lparr>metersCache := Some mappingData, cacheTimestamp := Some now\<rparr>)
           | Inl error \<Rightarrow>
               (Inr (case metersCache st of Some cached \<Rightarrow> cached | None \<Rightarrow> empty_mapping),
                st)))"

text \<open>part_001, lines 95 to 100 and 570 to 574: a row counts when both fields are true, and
  the room identifier is stored as it is.\<close>

definition add_meter_row_p1 :: "room_value js_object \<Rightarrow> meter_row \<Rightarrow> js_error + room_value js_object" where
  "add_meter_row_p1 macToRoom row =
     (if truthy (meter_mac row) \<and> room_truthy (room_id row) then
        (case room_id row of
           Value v \<Rightarrow>
             (case normalizeMacAddress_p1 (meter_mac row) of
                Inl e \<Rightarrow> Inl e
              | Inr k \<Rightarrow> Inr (AList.update k v macToRoom))
         | _ \<Rightarrow> Inr macToRoom)
      else Inr macToRoom)"

fun build_mapping_p1 :: "room_value js_object \<Rightarrow> meter_row list \<Rightarrow> js_error + room_value js_object" where
  "build_mapping_p1 m [] = Inr m"
| "build_mapping_p1 m (row # rows) =
     (case add_meter_row_p1 m row of
        Inl e \<Rightarrow> Inl e
      | Inr m' \<Rightarrow> build_mapping_p1 m' rows)"

record cache_state_p1 =
  metersCache_p1 :: "room_value js_object option"
  cacheTimestamp_p1 :: "int option"

text \<open>part_001, lines 75 to 111 and 547 to 585.\<close>

definition getMetersMapping_p1 :: "int \<Rightarrow> js_error + meter_row list \<Rightarrow> cache_state_p1 \<Rightarrow> (js_error + room_value js_object) \<times> cache_state_p1" where
  "getMetersMapping_p1 now query st =
     (case (if cache_valid now (metersCache_p1 st) (cacheTimestamp_p1 st) then metersCache_p1 st
            else None) of
        Some cached \<Rightarrow> (Inr cached, st)
      | None \<Rightarrow>
          (case (case query of Inl e \<Rightarrow> Inl e | Inr rows \<Rightarrow> build_mapping_p1 [] rows) of
             Inr macToRoom \<Rightarrow>
               (Inr macToRoom, st\<lparr>metersCache_p1 := Some macToRoom, cacheTimestamp_p1 := Some now\<rparr>)
           | Inl error \<Rightarrow>
               (Inr (case metersCache_p1 st of Some cached \<Rightarrow> cached | None \<Rightarrow> []), st)))"

subsection \<open>Local calendar\<close>

text \<open>Modelled from the spec: the dayjs library and its utc and timezone plug-ins are a
  dependency, not part of the repository. A \<open>dayjs\<close> value is a wall-clock time in the fixed
  local zone UTC+8 with the fields dayjs keeps (months count from 0), on the proleptic
  Gregorian calendar; \<open>valueOf\<close> is the instant it denotes.\<close>

record dayjs =
  year :: int
  month :: int
  date :: int
  hour :: int
  minute :: int
  second :: int
  millisecond :: int

definition leap_year :: "int \<Rightarrow> bool" where
  "leap_year y \<longleftrightarrow> (y mod 4 = 0 \<and> y mod 100 \<noteq> 0) \<or> y mod 400 = 0"

definition daysInMonth :: "int \<Rightarrow> int \<Rightarrow> int" where
  "daysInMonth y m =
     (if m = 1 then (if leap_year y then 29 else 28)
      else if m = 3 \<or> m = 5 \<or> m = 8 \<or> m = 10 then 30
      else 31)"

definition valid_dayjs :: "dayjs \<Rightarrow> bool" where
  "valid_dayjs d \<longleftrightarrow>
     0 \<le> month d \<and> month d \<le> 11 \<and> 1 \<le> date d \<and> date d \<le> daysInMonth (year d) (month d)
     \<and> 0 \<le> hour d \<and> hour d \<le> 23 \<and> 0 \<le> minute d \<and> minute d \<le> 59
     \<and> 0 \<le> second d \<and> second d \<le> 59 \<and> 0 \<le> millisecond d \<and> millisecond d \<le> 999"

definition days_before_year :: "int \<Rightarrow> int" where
  "days_before_year y =
     365 * (y - 1970) + ((y - 1) div 4 - (y - 1) div 100 + (y - 1) div 400) - 477"

definition days_before_month :: "int \<Rightarrow> int \<Rightarrow> int" where
  "days_before_month y m =
     [0, 31, 59, 90, 120, 151, 181, 212, 243, 273, 304, 334] ! nat m
     + (if 2 \<le> m \<and> leap_year y then 1 else 0)"

definition epoch_day :: "int \<Rightarrow> int \<Rightarrow> int \<Rightarrow> int" where
  "epoch_day y m d = days_before_year y + days_before_month y m + (d - 1)"

definition UTC_OFFSET_MS :: int where
  "UTC_OFFSET_MS = 8 * 3600000"

definition valueOf :: "dayjs \<Rightarrow> int" where
  "valueOf d =
     epoch_day (year d) (month d) (date d) * 86400000
     + hour d * 3600000 + minute d * 60000 + second d * 1000 + millisecond d
     - UTC_OFFSET_MS"

datatype unit_of_time = Hour | Day | Month | Year

fun startOf :: "unit_of_time \<Rightarrow> dayjs \<Rightarrow> dayjs" where
  "startOf Hour d = d\<lparr>minute := 0, second := 0, millisecond := 0\<rparr>"
| "startOf Day d = d\<lparr>hour := 0, minute := 0, second := 0, millisecond := 0\<rparr>"
| "startOf Month d = d\<lparr>date := 1, hour := 0, minute := 0, second := 0, millisecond := 0\<rparr>"
| "startOf Year d =
     d\<lparr>month := 0, date := 1, hour := 0, minute := 0, second := 0, millisecond := 0\<rparr>"

fun endOf :: "unit_of_time \<Rightarrow> dayjs \<Rightarrow> dayjs" where
  "endOf Hour d = d\<lparr>minute := 59, second := 59, millisecond := 999\<rparr>"
| "endOf Day d = d\<lparr>hour := 23, minute := 59, second := 59, millisecond := 999\<rparr>"
| "endOf Month d =
     d\<lparr>date := daysInMonth (year d) (month d),
       hour := 23, minute := 59, second := 59, millisecond := 999\<rparr>"
| "endOf Year d =
     d\<lparr>month := 11, date := 31, hour := 23, minute := 59, second := 59, millisecond := 999\<rparr>"

definition next_day :: "dayjs \<Rightarrow> dayjs" where
  "next_day d =
     (if date d < daysInMonth (year d) (month d) then d\<lparr>date := date d + 1\<rparr>
      else if month d < 11 then d\<lparr>month := month d + 1, date := 1\<rparr>
      else d\<lparr>year := year d + 1, month := 0, date := 1\<rparr>)"

text \<open>\<^verbatim>\<open>add(1, unit)\<close>. Adding a month or a year keeps the day of the month unless the
  target month is shorter, where it takes the last day.\<close>

fun add1 :: "unit_of_time \<Rightarrow> dayjs \<Rightarrow> dayjs" where
  "add1 Hour d = (if hour d < 23 then d\<lparr>hour := hour d + 1\<rparr> else (next_day d)\<lparr>hour := 0\<rparr>)"
| "add1 Day d = next_day d"
| "add1 Month d =
     (let y = (if month d < 11 then year d else year d + 1);
          m = (if month d < 11 then month d + 1 else 0)
      in d\<lparr>year := y, month := m, date := min (date d) (daysInMonth y m)\<rparr>)"
| "add1 Year d =
     d\<lparr>year := year d + 1, date := min (date d) (daysInMonth (year d + 1) (month d))\<rparr>"

definition isBefore :: "dayjs \<Rightarrow> dayjs \<Rightarrow> bool" where
  "isBefore a b \<longleftrightarrow> valueOf a < valueOf b"

definition isSame :: "dayjs \<Rightarrow> dayjs \<Rightarrow> unit_of_time \<Rightarrow> bool" where
  "isSame a b u \<longleftrightarrow> valueOf (startOf u a) \<le> valueOf b \<and> valueOf b \<le> valueOf (endOf u a)"

definition pad_start :: "nat \<Rightarrow> string \<Rightarrow> string" where
  "pad_start n s = replicate (n - length s) (CHR ''0'') @ s"

definition month_name :: "int \<Rightarrow> string" where
  "month_name m =
     [''January'', ''February'', ''March'', ''April'', ''May'', ''June'', ''July'',
      ''August'', ''September'', ''October'', ''November'', ''December''] ! nat m"

subsection \<open>Calendar period generator\<close>

text \<open>An entry of \<^verbatim>\<open>configs\<close> (part_000, lines 335 to 364; the same text in part_001, lines
  226 to 262 and 700 to 729). The fields \<^verbatim>\<open>format\<close> and \<^verbatim>\<open>getValue\<close> of an entry are
  fixed by its unit and are the functions \<open>format_label\<close> and \<open>getValue\<close>.\<close>

record period_config =
  cfg_unit :: unit_of_time
  cfg_start :: dayjs
  cfg_end :: dayjs

fun format_label :: "unit_of_time \<Rightarrow> dayjs \<Rightarrow> string" where
  "format_label Hour d = pad_start 2 (number_toString (hour d)) @ '':00''"
| "format_label Day d = take 3 (month_name (month d)) @ '' '' @ pad_start 2 (number_toString (date d))"
| "format_label Month d = month_name (month d)"
| "format_label Year d = pad_start 4 (number_toString (year d))"

fun getValue :: "unit_of_time \<Rightarrow> dayjs \<Rightarrow> int" where
  "getValue Hour d = hour d"
| "getValue Day d = date d"
| "getValue Month d = month d"
| "getValue Year d = year d"

definition configs :: "dayjs \<Rightarrow> string \<Rightarrow> period_config option" where
  "configs localInputDate period =
     (if period = ''hour'' then
        Some \<lparr>cfg_unit = Hour, cfg_start = startOf Day localInputDate,
              cfg_end = endOf Day localInputDate\<rparr>
      else if period = ''day'' then
        Some \<lparr>cfg_unit = Day, cfg_start = startOf Month localInputDate,
              cfg_end = endOf Month localInputDate\<rparr>
      else if period = ''month'' then
        Some \<lparr>cfg_unit = Month, cfg_start = startOf Year localInputDate,
              cfg_end = endOf Year localInputDate\<rparr>
      else if period = ''year'' then
        Some \<lparr>cfg_unit = Year,
              cfg_start = \<lparr>year = 2023, month = 0, date = 1, hour = 0, minute = 0,
                           second = 0, millisecond = 0\<rparr>,
              cfg_end = endOf Year localInputDate\<rparr>
      else None)"

text \<open>An element of the result: \<open>utcStart\<close>, \<open>utcEnd\<close> and \<open>fullTimestamp\<close> are instants.\<close>

record time_period =
  local :: dayjs
  utcStart :: int
  utcEnd :: int
  timestamp :: string
  fullTimestamp :: int
  period :: int

definition make_period :: "period_config \<Rightarrow> dayjs \<Rightarrow> time_period" where
  "make_period config current =
     \<lparr>local = current,
      utcStart = valueOf (startOf (cfg_unit config) current),
      utcEnd = valueOf (endOf (cfg_unit config) current),
      timestamp = format_label (cfg_unit config) current,
      fullTimestamp = valueOf current,
      period = getValue (cfg_unit config) current\<rparr>"

text \<open>The \<^verbatim>\<open>while\<close> loop of \<open>getTimePeriods\<close>. It is not known beforehand to end, so it is
  a partial function: \<open>None\<close> is a run that never returns.\<close>

partial_function (option) periods_loop :: "period_config \<Rightarrow> dayjs \<Rightarrow> time_period list \<Rightarrow> time_period list option" where
  "periods_loop config current periods =
     (if isBefore current (cfg_end config) \<or> isSame current (cfg_end config) (cfg_unit config)
      then periods_loop config (add1 (cfg_unit config) current)
             (periods @ [make_period config current])
      else Some periods)"

declare periods_loop.simps [code]

text \<open>The result of \<open>buildDateRangeQuery\<close>; the generator receives it and does not read it.\<close>

record date_range =
  range_start :: int
  range_stop :: int


text \<open>part_000, lines 331 to 391: an unknown period has no entry in \<^verbatim>\<open>configs\<close>, and
  \<^verbatim>\<open>if (!config) return periods\<close> returns the empty list.\<close>

definition getTimePeriods :: "string \<Rightarrow> date_range \<Rightarrow> dayjs \<Rightarrow> time_period list option" where
  "getTimePeriods period_name dateRange localInputDate =
     (case configs localInputDate period_name of
        None \<Rightarrow> Some []
      | Some config \<Rightarrow> periods_loop config (cfg_start config) [])"

subsection \<open>Period query executor and report\<close>









subsection \<open>The data endpoint\<close>
















subsection \<open>The periods of a day and of a month, stated directly\<close>

text \<open>The definitions of this subsection do not come from the code: they describe the
  bucket of hour \<open>h\<close> of the local day of \<open>D\<close> and the bucket of day \<open>k\<close> of the local month
  of \<open>D\<close>, and the generator is compared with them below.\<close>

definition hour_period :: "dayjs \<Rightarrow> int \<Rightarrow> time_period" where
  "hour_period D h =
     \<lparr>local = (startOf Day D)\<lparr>hour := h\<rparr>,
      utcStart = valueOf (startOf Day D) + h * 3600000,
      utcEnd = valueOf (startOf Day D) + h * 3600000 + 3599999,
      timestamp = pad_start 2 (number_toString h) @ '':00'',
      fullTimestamp = valueOf (startOf Day D) + h * 3600000,
      period = h\<rparr>"

definition day_period :: "dayjs \<Rightarrow> int \<Rightarrow> time_period" where
  "day_period D k =
     \<lparr>local = (startOf Month D)\<lparr>date := k\<rparr>,
      utcStart = valueOf (startOf Month D) + (k - 1) * 86400000,
      utcEnd = valueOf (startOf Month D) + (k - 1) * 86400000 + 86399999,
      timestamp = take 3 (month_name (month D)) @ '' '' @ pad_start 2 (number_toString k),
      fullTimestamp = valueOf (startOf Month D) + (k - 1) * 86400000,
      period = k\<rparr>"

section \<open>Properties\<close>

subsection \<open>Lower-casing and delimiters\<close>

lemma of_char_toLowerCase_char:
  "(of_char (toLowerCase_char c) :: nat) =
     (if is_upper_code (of_char c) then of_char c + 32 else of_char c)"
  apply (cases c)
  apply (simp add: toLowerCase_char_def)
  apply (auto simp add: is_upper_code_def)
  done

lemma toLowerCase_char_idem: "toLowerCase_char (toLowerCase_char c) = toLowerCase_char c"
proof -
  have "\<not> is_upper_code (of_char (toLowerCase_char c))"
    unfolding of_char_toLowerCase_char by (auto simp: is_upper_code_def)
  then show ?thesis
    using toLowerCase_char_def[of "toLowerCase_char c"] by presburger
qed

lemma toLowerCase_idem: "toLowerCase (toLowerCase s) = toLowerCase s"
  by (simp add: toLowerCase_def toLowerCase_char_idem)

lemma is_mac_delimiter_code:
  "is_mac_delimiter c \<longleftrightarrow> (of_char c :: nat) \<in> {9, 10, 11, 12, 13, 32, 160, 58, 45}"
proof -
  have "c = CHR '':'' \<longleftrightarrow> (of_char c :: nat) = of_char (CHR '':'')"
    by (metis char_of_char)
  moreover have "c = CHR ''-'' \<longleftrightarrow> (of_char c :: nat) = of_char (CHR ''-'')"
    by (metis char_of_char)
  ultimately show ?thesis
    by (auto simp: is_mac_delimiter_def is_whitespace_def)
qed

lemma is_mac_delimiter_toLowerCase_char:
  "is_mac_delimiter (toLowerCase_char c) = is_mac_delimiter c"
  unfolding is_mac_delimiter_code of_char_toLowerCase_char
  by (auto simp: is_upper_code_def)

lemma strip_delimiters_toLowerCase:
  "strip_delimiters (toLowerCase s) = toLowerCase (strip_delimiters s)"
  by (induction s)
     (simp_all add: strip_delimiters_def toLowerCase_def is_mac_delimiter_toLowerCase_char)

lemma strip_delimiters_idem: "strip_delimiters (strip_delimiters s) = strip_delimiters s"
  by (simp add: strip_delimiters_def)

lemma hex_digit_not_delimiter: "is_hex_digit c \<Longrightarrow> \<not> is_mac_delimiter c"
  by (auto simp: is_hex_digit_def is_mac_delimiter_def is_whitespace_def)

lemma strip_delimiters_hex: "\<forall>c\<in>set ds. is_hex_digit c \<Longrightarrow> strip_delimiters ds = ds"
  by (induction ds) (simp_all add: strip_delimiters_def hex_digit_not_delimiter)

lemma strip_render_mac:
  "\<forall>c\<in>set d. is_mac_delimiter c \<Longrightarrow>
   strip_delimiters (render_mac d ds) = strip_delimiters ds"
proof (induction d ds rule: render_mac.induct)
  case (1 d a b c rest)
  have "filter (\<lambda>c. \<not> is_mac_delimiter c) d = []"
    using "1.prems" by (simp add: filter_empty_conv)
  with 1 show ?case by (simp add: strip_delimiters_def)
qed simp_all

lemma render_mac_nonempty: "ds \<noteq> [] \<Longrightarrow> render_mac d ds \<noteq> []"
  by (induction d ds rule: render_mac.induct) simp_all

lemma toLowerCase_render_mac:
  "toLowerCase (render_mac d ds) = render_mac (toLowerCase d) (toLowerCase ds)"
  by (induction d ds rule: render_mac.induct) (simp_all add: toLowerCase_def)

lemma delimiter_text_cases:
  "d \<in> {'':'', ''-'', ''''} \<Longrightarrow> \<forall>c\<in>set d. is_mac_delimiter c"
  by (auto simp: is_mac_delimiter_def)

lemma normalize_render_mac:
  assumes "d \<in> {'':'', ''-'', ''''}" and "ds \<noteq> []" and "\<forall>c\<in>set ds. is_hex_digit c"
  shows "normalizeMacAddress (Some (render_mac d ds)) = Some (toLowerCase ds)"
  using assms
  by (simp add: normalizeMacAddress_def render_mac_nonempty
      strip_render_mac[OF delimiter_text_cases] strip_delimiters_hex)

subsection \<open>MAC normalizer: claims C5 and C9\<close>

text \<open>
  Claim C5, as stated, asks every backend to map the colon-delimited, the hyphen-delimited
  and the delimiter-free rendering of the same digits to one string. The normalizer of
  part_001 only lower-cases, so it keeps the delimiters: the colon form and the plain form
  of the same address stay different.
\<close>

theorem normalize_p1_keeps_delimiters_counterexample:
  "normalizeMacAddress_p1 (Some ''AA:BB:CC:DD:EE:FF'')
     \<noteq> normalizeMacAddress_p1 (Some ''aabbccddeeff'')"
  by (simp add: normalizeMacAddress_p1_def toLowerCase_def toLowerCase_char_def
      is_upper_code_def)

text \<open>
  Claim C5, amended. Normalization is idempotent in every backend (in part_000 on every
  text that holds at least one character besides delimiters, as every MAC form does).
  In part_000 the renderings of the same hexadecimal digits with a colon, a hyphen or
  nothing between the pairs, in any letter case, all normalize to the lower-case digits.
  In part_001 a rendering normalizes to the same rendering of the lower-case digits, with
  its delimiters kept: two renderings normalize to the same string when they use the same
  delimiter and differ in letter case only.
\<close>

theorem normalize_idempotent_and_insensitive:
  assumes "strip_delimiters s \<noteq> []"
    and "ds1 \<noteq> []" and "\<forall>c\<in>set ds1. is_hex_digit c" and "\<forall>c\<in>set ds2. is_hex_digit c"
    and "toLowerCase ds1 = toLowerCase ds2"
    and "d1 \<in> {'':'', ''-'', ''''}" and "d2 \<in> {'':'', ''-'', ''''}"
  shows "normalizeMacAddress (normalizeMacAddress (Some s)) = normalizeMacAddress (Some s)
    \<and> (case normalizeMacAddress_p1 (Some x) of
            Inl e \<Rightarrow> Inl e | Inr y \<Rightarrow> normalizeMacAddress_p1 (Some y))
         = normalizeMacAddress_p1 (Some x)
    \<and> normalizeMacAddress (Some (render_mac d1 ds1)) = Some (toLowerCase ds1)
    \<and> normalizeMacAddress (Some (render_mac d1 ds1))
         = normalizeMacAddress (Some (render_mac d2 ds2))
    \<and> normalizeMacAddress_p1 (Some (render_mac d1 ds1))
         = normalizeMacAddress_p1 (Some (render_mac d1 ds2))
    \<and> normalizeMacAddress_p1 (Some (render_mac d1 ds1))
         = Inr (render_mac d1 (toLowerCase ds1))"
proof -
  have ne: "s \<noteq> []" using assms(1) by (auto simp: strip_delimiters_def)
  have ne': "toLowerCase (strip_delimiters s) \<noteq> []"
    using assms(1) by (simp add: toLowerCase_def)
  have c1: "normalizeMacAddress (normalizeMacAddress (Some s)) = normalizeMacAddress (Some s)"
    using ne ne'
    by (simp add: normalizeMacAddress_def strip_delimiters_toLowerCase
        strip_delimiters_idem toLowerCase_idem)
  have c2: "(case normalizeMacAddress_p1 (Some x) of
            Inl e \<Rightarrow> Inl e | Inr y \<Rightarrow> normalizeMacAddress_p1 (Some y))
         = normalizeMacAddress_p1 (Some x)"
    by (simp add: normalizeMacAddress_p1_def toLowerCase_idem)
  have ne2: "ds2 \<noteq> []"
    using assms(2,5) by (auto simp: toLowerCase_def)
  have c3: "normalizeMacAddress (Some (render_mac d1 ds1)) = Some (toLowerCase ds1)"
    by (rule normalize_render_mac[OF assms(6) assms(2) assms(3)])
  have c4: "normalizeMacAddress (Some (render_mac d1 ds1))
         = normalizeMacAddress (Some (render_mac d2 ds2))"
    using c3 normalize_render_mac[OF assms(7) ne2 assms(4)] assms(5)
    by simp
  have c5: "normalizeMacAddress_p1 (Some (render_mac d1 ds1))
         = normalizeMacAddress_p1 (Some (render_mac d1 ds2))"
    by (simp add: normalizeMacAddress_p1_def toLowerCase_render_mac assms(5))
  have "toLowerCase d1 = d1"
    using assms(6) by (auto simp: toLowerCase_def toLowerCase_char_def is_upper_code_def)
  then have c6: "normalizeMacAddress_p1 (Some (render_mac d1 ds1))
         = Inr (render_mac d1 (toLowerCase ds1))"
    by (simp add: normalizeMacAddress_p1_def toLowerCase_render_mac)
  from c1 c2 c3 c4 c5 c6 show ?thesis by blast
qed

theorem normalize_idempotent_and_insensitive_witness:
  "strip_delimiters ''AA:BB:CC:DD:EE:FF'' \<noteq> []
   \<and> list_all is_hex_digit ''AABBCCDDEEFF''
   \<and> list_all is_hex_digit ''aabbccddeeff''
   \<and> toLowerCase ''AABBCCDDEEFF'' = toLowerCase ''aabbccddeeff''
   \<and> normalizeMacAddress (normalizeMacAddress (Some ''AA:BB:CC:DD:EE:FF''))
       = normalizeMacAddress (Some ''AA:BB:CC:DD:EE:FF'')
   \<and> normalizeMacAddress (Some (render_mac '':'' ''AABBCCDDEEFF''))
       = normalizeMacAddress (Some (render_mac ''-'' ''aabbccddeeff''))
   \<and> normalizeMacAddress_p1 (Some (render_mac '':'' ''AABBCCDDEEFF''))
       = normalizeMacAddress_p1 (Some (render_mac '':'' ''aabbccddeeff''))"
proof -
  have h1: "strip_delimiters ''AA:BB:CC:DD:EE:FF'' \<noteq> []"
    by (simp add: strip_delimiters_def is_mac_delimiter_def is_whitespace_def)
  have h2: "''AABBCCDDEEFF'' \<noteq> []" by simp
  have h3: "\<forall>c\<in>set ''AABBCCDDEEFF''. is_hex_digit c" by (simp add: is_hex_digit_def)
  have h4: "\<forall>c\<in>set ''aabbccddeeff''. is_hex_digit c" by (simp add: is_hex_digit_def)
  have h5: "toLowerCase ''AABBCCDDEEFF'' = toLowerCase ''aabbccddeeff''"
    by (simp add: toLowerCase_def toLowerCase_char_def is_upper_code_def)
  have h6: "'':'' \<in> {'':'', ''-'', ''''}" by simp
  have h7: "''-'' \<in> {'':'', ''-'', ''''}" by simp
  from normalize_idempotent_and_insensitive[OF h1 h2 h3 h4 h5 h6 h7] h1 h3 h4 h5
  show ?thesis unfolding list_all_iff by blast
qed

text \<open>
  Claim C9, as stated, says that no backend throws on a null input. In part_001 the
  normalizer calls \<^verbatim>\<open>toLowerCase\<close> on its argument without a guard, so a null argument
  raises a TypeError.
\<close>

theorem normalize_p1_null_counterexample:
  "normalizeMacAddress_p1 None = Inl TypeError"
  by (simp add: normalizeMacAddress_p1_def)

text \<open>
  Claim C9, amended. In part_000 the normalizer returns null for a null and for an empty
  input. In part_001 it returns the empty string for the empty string; a null input is
  outside its domain, and the call throws.
\<close>

theorem normalize_null_and_empty:
  "normalizeMacAddress None = None
   \<and> normalizeMacAddress (Some '''') = None
   \<and> normalizeMacAddress_p1 (Some '''') = Inr ''''
   \<and> normalizeMacAddress_p1 None = Inl TypeError"
  by (simp add: normalizeMacAddress_def normalizeMacAddress_p1_def toLowerCase_def)

subsection \<open>Grouping and summing\<close>




















lemma normalizeMacAddress_p1_Some: "normalizeMacAddress_p1 (Some k) = Inr (toLowerCase k)"
  by (simp add: normalizeMacAddress_p1_def)





subsection \<open>Deltas, permutations and the supply device\<close>










lemma sum_list_zero:
  fixes g :: "'a \<Rightarrow> rat"
  shows "(\<And>x. g x = 0) \<Longrightarrow> sum_list (map g xs) = 0"
  by (induction xs) simp_all



subsection \<open>Energy delta aggregator: claims C1, C10, C2 and C3\<close>



























subsection \<open>Device mapping cache: claim C7\<close>

lemma getMetersMapping_failed_refresh:
  assumes "(case query of Inl e \<Rightarrow> Inl e | Inr rows \<Rightarrow> build_mapping empty_mapping rows) = Inl e'"
  shows "getMetersMapping now query st =
     (Inr (case metersCache st of Some cached \<Rightarrow> cached | None \<Rightarrow> empty_mapping), st)"
  using assms
  by (cases "metersCache st")
     (simp_all add: getMetersMapping_def cache_valid_def)

lemma getMetersMapping_p1_failed_refresh:
  assumes "(case query of Inl e \<Rightarrow> Inl e | Inr rows \<Rightarrow> build_mapping_p1 [] rows) = Inl e'"
  shows "getMetersMapping_p1 now query st =
     (Inr (case metersCache_p1 st of Some cached \<Rightarrow> cached | None \<Rightarrow> []), st)"
  using assms
  by (cases "metersCache_p1 st")
     (simp_all add: getMetersMapping_p1_def cache_valid_def)

lemma getMetersMapping_resolves: "\<exists>md. fst (getMetersMapping now query st) = Inr md"
  by (auto simp: getMetersMapping_def split: option.splits sum.splits if_splits)

lemma getMetersMapping_p1_resolves: "\<exists>m. fst (getMetersMapping_p1 now query st) = Inr m"
  by (auto simp: getMetersMapping_p1_def split: option.splits sum.splits if_splits)

text \<open>
  Claim C7. When the storage query of a mapping refresh fails, \<open>getMetersMapping\<close> resolves
  to the cached mapping if there is one and to an empty mapping otherwise, and leaves the
  cache as it was; the same holds when a row makes the processing throw inside the
  \<^verbatim>\<open>try\<close> block. Whatever the outcome of the query, the promise never rejects. This holds
  in part_000 and in both programs of part_001.
\<close>

theorem getMetersMapping_fails_open:
  "getMetersMapping now (Inl e) st
     = (Inr (case metersCache st of Some cached \<Rightarrow> cached | None \<Rightarrow> empty_mapping), st)
   \<and> getMetersMapping_p1 now (Inl e) st1
     = (Inr (case metersCache_p1 st1 of Some cached \<Rightarrow> cached | None \<Rightarrow> []), st1)
   \<and> (build_mapping empty_mapping rows = Inl e' \<longrightarrow>
        getMetersMapping now (Inr rows) st
          = (Inr (case metersCache st of Some cached \<Rightarrow> cached | None \<Rightarrow> empty_mapping), st))
   \<and> (\<exists>md. fst (getMetersMapping now query st) = Inr md)
   \<and> (\<exists>m. fst (getMetersMapping_p1 now query st1) = Inr m)"
  using getMetersMapping_failed_refresh[of "Inl e" e now st]
    getMetersMapping_p1_failed_refresh[of "Inl e" e now st1]
    getMetersMapping_failed_refresh[of "Inr rows" e' now st]
    getMetersMapping_resolves[of now query st]
    getMetersMapping_p1_resolves[of now query st1]
  by simp

text \<open>Claim C7 with a cache that has expired, with no cache, and with a row whose room
  identifier is \<^verbatim>\<open>null\<close>.\<close>

theorem getMetersMapping_fails_open_witness:
  "getMetersMapping 1000000 (Inl QueryError)
      \<lparr>metersCache = Some \<lparr>macToRoomMap = [(''aabbccddee01'', ''1'')], roomToMacsMap = [],
          originalMacFormats = []\<rparr>, cacheTimestamp = Some 1\<rparr>
     = (Inr \<lparr>macToRoomMap = [(''aabbccddee01'', ''1'')], roomToMacsMap = [],
          originalMacFormats = []\<rparr>,
        \<lparr>metersCache = Some \<lparr>macToRoomMap = [(''aabbccddee01'', ''1'')], roomToMacsMap = [],
          originalMacFormats = []\<rparr>, cacheTimestamp = Some 1\<rparr>)
   \<and> getMetersMapping_p1 1000000 (Inl QueryError)
      \<lparr>metersCache_p1 = None, cacheTimestamp_p1 = None\<rparr>
     = (Inr [], \<lparr>metersCache_p1 = None, cacheTimestamp_p1 = None\<rparr>)
   \<and> getMetersMapping 1000000
      (Inr [\<lparr>meter_mac = Some ''AA:BB:CC:DD:EE:02'', room_id = Null\<rparr>])
      \<lparr>metersCache = Some \<lparr>macToRoomMap = [(''aabbccddee01'', ''1'')], roomToMacsMap = [],
          originalMacFormats = []\<rparr>, cacheTimestamp = Some 1\<rparr>
     = (Inr \<lparr>macToRoomMap = [(''aabbccddee01'', ''1'')], roomToMacsMap = [],
          originalMacFormats = []\<rparr>,
        \<lparr>metersCache = Some \<lparr>macToRoomMap = [(''aabbccddee01'', ''1'')], roomToMacsMap = [],
          originalMacFormats = []\<rparr>, cacheTimestamp = Some 1\<rparr>)"
proof -
  have h: "build_mapping empty_mapping
      [\<lparr>meter_mac = Some ''AA:BB:CC:DD:EE:02'', room_id = Null\<rparr>] = Inl TypeError"
    by (simp add: add_meter_row_def truthy_def)
  show ?thesis
    using h getMetersMapping_fails_open[of 1000000 QueryError
      "\<lparr>metersCache = Some \<lparr>macToRoomMap = [(''aabbccddee01'', ''1'')], roomToMacsMap = [],
          originalMacFormats = []\<rparr>, cacheTimestamp = Some 1\<rparr>"
      "\<lparr>metersCache_p1 = None, cacheTimestamp_p1 = None\<rparr>"
      "[\<lparr>meter_mac = Some ''AA:BB:CC:DD:EE:02'', room_id = Null\<rparr>]" TypeError]
    by simp
qed

subsection \<open>Calendar arithmetic\<close>

lemma div_step:
  fixes y n :: int
  assumes "0 < n"
  shows "y div n - (y - 1) div n = (if y mod n = 0 then 1 else 0)"
proof (cases "y mod n = 0")
  case True
  have "y = n * (y div n)" using True by auto
  then have "y - 1 = n * (y div n - 1) + (n - 1)"
    by (simp add: algebra_simps)
  then have "(y - 1) div n = y div n - 1"
    by (rule int_div_pos_eq[where r = "n - 1"]) (use assms in auto)
  then show ?thesis using True by simp
next
  case False
  have r: "0 \<le> y mod n" "y mod n < n" using assms by simp_all
  have "y - 1 = n * (y div n) + (y mod n - 1)"
    by (simp add: algebra_simps)
  then have "(y - 1) div n = y div n"
    by (rule int_div_pos_eq[where r = "y mod n - 1"]) (use assms False r in auto)
  then show ?thesis using False by simp
qed

lemma mod_400_100:
  fixes y :: int
  assumes "y mod 400 = 0" shows "y mod 100 = 0"
proof -
  have "(400::int) dvd y" using assms by (simp add: mod_eq_0_iff_dvd)
  moreover have "(100::int) dvd 400" by simp
  ultimately have "100 dvd y" by (rule dvd_trans[rotated])
  then show ?thesis by simp
qed

lemma mod_100_4:
  fixes y :: int
  assumes "y mod 100 = 0" shows "y mod 4 = 0"
proof -
  have "(100::int) dvd y" using assms by (simp add: mod_eq_0_iff_dvd)
  moreover have "(4::int) dvd 100" by simp
  ultimately have "4 dvd y" by (rule dvd_trans[rotated])
  then show ?thesis by simp
qed

lemma leap_count_step:
  fixes y :: int
  shows "(y div 4 - y div 100 + y div 400) - ((y - 1) div 4 - (y - 1) div 100 + (y - 1) div 400)
     = (if leap_year y then 1 else 0)"
proof -
  define a where "a = y div 4 - (y - 1) div 4"
  define b where "b = y div 100 - (y - 1) div 100"
  define c where "c = y div 400 - (y - 1) div 400"
  define m4 where "m4 \<longleftrightarrow> y mod 4 = 0"
  define m100 where "m100 \<longleftrightarrow> y mod 100 = 0"
  define m400 where "m400 \<longleftrightarrow> y mod 400 = 0"
  have a: "a = (if m4 then 1 else 0)" unfolding a_def m4_def by (rule div_step) simp
  have b: "b = (if m100 then 1 else 0)" unfolding b_def m100_def by (rule div_step) simp
  have c: "c = (if m400 then 1 else 0)" unfolding c_def m400_def by (rule div_step) simp
  have i1: "m400 \<Longrightarrow> m100" unfolding m400_def m100_def by (rule mod_400_100)
  have i2: "m100 \<Longrightarrow> m4" unfolding m100_def m4_def by (rule mod_100_4)
  have l: "leap_year y \<longleftrightarrow> (m4 \<and> \<not> m100) \<or> m400"
    unfolding leap_year_def m4_def m100_def m400_def ..
  have "(y div 4 - y div 100 + y div 400) - ((y - 1) div 4 - (y - 1) div 100 + (y - 1) div 400)
      = a - b + c"
    unfolding a_def b_def c_def by (simp only: algebra_simps)
  also have "\<dots> = (if leap_year y then 1 else 0)"
    unfolding l a b c using i1 i2 by auto
  finally show ?thesis .
qed

lemma days_before_year_Suc:
  "days_before_year (y + 1) = days_before_year y + 365 + (if leap_year y then 1 else 0)"
proof -
  define p where "p = y div 4 - y div 100 + y div 400"
  define q where "q = (y - 1) div 4 - (y - 1) div 100 + (y - 1) div 400"
  have "p - q = (if leap_year y then 1 else 0)"
    unfolding p_def q_def by (rule leap_count_step)
  moreover have "days_before_year (y + 1) = 365 * (y + 1 - 1970) + p - 477"
    unfolding p_def by (simp only: days_before_year_def add_diff_cancel_right')
  moreover have "days_before_year y = 365 * (y - 1970) + q - 477"
    unfolding q_def by (simp only: days_before_year_def)
  ultimately show ?thesis by (simp split: if_splits)
qed

lemma days_before_month_Suc:
  assumes "0 \<le> m" "m < 11"
  shows "days_before_month y (m + 1) = days_before_month y m + daysInMonth y m"
proof -
  from assms have "m = 0 \<or> m = 1 \<or> m = 2 \<or> m = 3 \<or> m = 4 \<or> m = 5 \<or> m = 6 \<or> m = 7
      \<or> m = 8 \<or> m = 9 \<or> m = 10" by presburger
  then show ?thesis
    by (elim disjE) (simp_all add: days_before_month_def daysInMonth_def)
qed

lemma epoch_day_next_day:
  assumes "0 \<le> month d" "month d \<le> 11" "1 \<le> date d" "date d \<le> daysInMonth (year d) (month d)"
  shows "epoch_day (year (next_day d)) (month (next_day d)) (date (next_day d))
       = epoch_day (year d) (month d) (date d) + 1"
proof -
  consider (a) "date d < daysInMonth (year d) (month d)"
    | (b) "date d = daysInMonth (year d) (month d)" "month d < 11"
    | (c) "date d = daysInMonth (year d) (month d)" "month d = 11"
    using assms by linarith
  then show ?thesis
  proof cases
    case a
    then show ?thesis by (simp add: next_day_def epoch_day_def)
  next
    case b
    then show ?thesis
      using days_before_month_Suc[OF assms(1) b(2), of "year d"]
      by (simp add: next_day_def epoch_day_def)
  next
    case c
    then show ?thesis
      using days_before_year_Suc[of "year d"]
      by (simp add: next_day_def epoch_day_def days_before_month_def daysInMonth_def)
  qed
qed

lemma valueOf_next_day:
  assumes "0 \<le> month d" "month d \<le> 11" "1 \<le> date d" "date d \<le> daysInMonth (year d) (month d)"
  shows "valueOf (next_day d) = valueOf d + 86400000"
proof -
  have t: "hour (next_day d) = hour d" "minute (next_day d) = minute d"
    "second (next_day d) = second d" "millisecond (next_day d) = millisecond d"
    by (simp_all add: next_day_def)
  show ?thesis
    unfolding valueOf_def t epoch_day_next_day[OF assms] by (simp add: algebra_simps)
qed

subsection \<open>The loop of the period generator\<close>

lemma periods_loop_continue:
  assumes "isBefore current (cfg_end config)"
  shows "periods_loop config current periods
       = periods_loop config (add1 (cfg_unit config) current)
           (periods @ [make_period config current])"
  using assms by (subst periods_loop.simps) simp

lemma periods_loop_stop:
  assumes "valueOf (cfg_end config) < valueOf (startOf (cfg_unit config) current)"
    and "valueOf (startOf (cfg_unit config) current) \<le> valueOf current"
  shows "periods_loop config current periods = Some periods"
  using assms by (subst periods_loop.simps) (simp add: isBefore_def isSame_def)

lemma hour_loop:
  assumes v: "valid_dayjs D"
    and c: "config = \<lparr>cfg_unit = Hour, cfg_start = startOf Day D, cfg_end = endOf Day D\<rparr>"
    and h: "0 \<le> h" "h \<le> 23"
  shows "periods_loop config ((startOf Day D)\<lparr>hour := h\<rparr>) acc
       = Some (acc @ map (hour_period D) [h..23])"
  using h
proof (induction "nat (23 - h)" arbitrary: h acc)
  case 0
  then have h23: "h = 23" by simp
  let ?cur = "(startOf Day D)\<lparr>hour := 23\<rparr>"
  have before: "isBefore ?cur (cfg_end config)"
    by (simp add: c isBefore_def valueOf_def)
  have mk: "make_period config ?cur = hour_period D 23"
    by (simp add: c make_period_def hour_period_def valueOf_def)
  define nxt where "nxt = add1 Hour ?cur"
  have n: "nxt = (next_day ?cur)\<lparr>hour := 0\<rparr>" by (simp add: nxt_def)
  have dn: "valueOf (next_day ?cur) = valueOf ?cur + 86400000"
    using v by (intro valueOf_next_day) (simp_all add: valid_dayjs_def)
  have "valueOf nxt = valueOf (next_day ?cur) - hour (next_day ?cur) * 3600000"
    unfolding n by (simp add: valueOf_def)
  also have "hour (next_day ?cur) = 23" by (simp add: next_day_def)
  finally have vn: "valueOf nxt = valueOf (startOf Day D) + 86400000"
    unfolding dn by (simp add: valueOf_def)
  have sn: "startOf Hour nxt = nxt" unfolding n by (simp add: next_day_def)
  have ve: "valueOf (cfg_end config) = valueOf (startOf Day D) + 86399999"
    by (simp add: c valueOf_def)
  have u: "cfg_unit config = Hour" by (simp add: c)
  have stop: "periods_loop config nxt (acc @ [hour_period D 23])
      = Some (acc @ [hour_period D 23])"
  proof (rule periods_loop_stop)
    show "valueOf (cfg_end config) < valueOf (startOf (cfg_unit config) nxt)"
      unfolding u sn vn ve by simp
    show "valueOf (startOf (cfg_unit config) nxt) \<le> valueOf nxt"
      unfolding u sn by simp
  qed
  have "periods_loop config ?cur acc
      = periods_loop config nxt (acc @ [hour_period D 23])"
    using periods_loop_continue[OF before, of acc] unfolding u mk nxt_def .
  then show ?case
    unfolding h23 stop by simp
next
  case (Suc n)
  then have hlt: "h < 23" and n: "n = nat (23 - (h + 1))" by linarith+
  let ?cur = "(startOf Day D)\<lparr>hour := h\<rparr>"
  have before: "isBefore ?cur (cfg_end config)"
    using hlt Suc.prems by (simp add: c isBefore_def valueOf_def)
  have mk: "make_period config ?cur = hour_period D h"
    by (simp add: c make_period_def hour_period_def valueOf_def)
  have nx: "add1 (cfg_unit config) ?cur = (startOf Day D)\<lparr>hour := h + 1\<rparr>"
    using hlt by (simp add: c)
  have "periods_loop config ?cur acc
      = periods_loop config ((startOf Day D)\<lparr>hour := h + 1\<rparr>) (acc @ [hour_period D h])"
    using periods_loop_continue[OF before, of acc] unfolding mk nx .
  also have "\<dots> = Some ((acc @ [hour_period D h]) @ map (hour_period D) [h + 1..23])"
    using Suc.prems hlt by (intro Suc.hyps(1)[OF n]) simp_all
  also have "\<dots> = Some (acc @ map (hour_period D) [h..23])"
    using hlt by (simp add: upto_rec1[of h 23])
  finally show ?case .
qed

lemma getTimePeriods_hour:
  assumes "valid_dayjs D"
  shows "getTimePeriods ''hour'' dr D = Some (map (hour_period D) [0..23])"
proof -
  have s: "(startOf Day D)\<lparr>hour := 0\<rparr> = startOf Day D" by (cases D) simp
  show ?thesis
    using hour_loop[OF assms refl, of 0 "[]", unfolded s]
    by (simp add: getTimePeriods_def configs_def)
qed

lemma day_loop:
  assumes v: "valid_dayjs D"
    and c: "config = \<lparr>cfg_unit = Day, cfg_start = startOf Month D, cfg_end = endOf Month D\<rparr>"
    and k: "1 \<le> k" "k \<le> daysInMonth (year D) (month D)"
  shows "periods_loop config ((startOf Month D)\<lparr>date := k\<rparr>) acc
       = Some (acc @ map (day_period D) [k..daysInMonth (year D) (month D)])"
  using k
proof (induction "nat (daysInMonth (year D) (month D) - k)" arbitrary: k acc)
  case 0
  then have kd: "k = daysInMonth (year D) (month D)" by simp
  let ?cur = "(startOf Month D)\<lparr>date := k\<rparr>"
  have u: "cfg_unit config = Day" by (simp add: c)
  have vc: "valueOf ?cur = valueOf (startOf Month D) + (k - 1) * 86400000"
    by (simp add: valueOf_def epoch_day_def algebra_simps)
  have ve: "valueOf (cfg_end config) = valueOf ?cur + 86399999"
    by (simp add: c kd valueOf_def epoch_day_def algebra_simps)
  have before: "isBefore ?cur (cfg_end config)"
    unfolding isBefore_def ve by simp
  have mk: "make_period config ?cur = day_period D k"
    by (simp add: c make_period_def day_period_def valueOf_def epoch_day_def algebra_simps)
  define nxt where "nxt = add1 Day ?cur"
  have n: "nxt = next_day ?cur" by (simp add: nxt_def)
  have vn: "valueOf nxt = valueOf ?cur + 86400000"
    unfolding n using v 0(2) by (intro valueOf_next_day) (simp_all add: valid_dayjs_def kd)
  have sn: "startOf Day nxt = nxt" unfolding n by (simp add: next_day_def)
  have stop: "periods_loop config nxt (acc @ [day_period D k]) = Some (acc @ [day_period D k])"
  proof (rule periods_loop_stop)
    show "valueOf (cfg_end config) < valueOf (startOf (cfg_unit config) nxt)"
      unfolding u sn vn ve by simp
    show "valueOf (startOf (cfg_unit config) nxt) \<le> valueOf nxt"
      unfolding u sn by simp
  qed
  have "periods_loop config ?cur acc = periods_loop config nxt (acc @ [day_period D k])"
    using periods_loop_continue[OF before, of acc] unfolding u mk nxt_def .
  then show ?case
    unfolding stop kd[symmetric] by simp
next
  case (Suc n)
  then have klt: "k < daysInMonth (year D) (month D)"
    and n: "n = nat (daysInMonth (year D) (month D) - (k + 1))" by linarith+
  let ?cur = "(startOf Month D)\<lparr>date := k\<rparr>"
  have before: "isBefore ?cur (cfg_end config)"
    using klt by (simp add: c isBefore_def valueOf_def epoch_day_def)
  have mk: "make_period config ?cur = day_period D k"
    by (simp add: c make_period_def day_period_def valueOf_def epoch_day_def algebra_simps)
  have nx: "add1 (cfg_unit config) ?cur = (startOf Month D)\<lparr>date := k + 1\<rparr>"
    using klt by (simp add: c next_day_def)
  have "periods_loop config ?cur acc
      = periods_loop config ((startOf Month D)\<lparr>date := k + 1\<rparr>) (acc @ [day_period D k])"
    using periods_loop_continue[OF before, of acc] unfolding mk nx .
  also have "\<dots> = Some ((acc @ [day_period D k])
      @ map (day_period D) [k + 1..daysInMonth (year D) (month D)])"
    using Suc.prems klt by (intro Suc.hyps(1)[OF n]) simp_all
  also have "\<dots> = Some (acc @ map (day_period D) [k..daysInMonth (year D) (month D)])"
    using klt by (simp add: upto_rec1[of k "daysInMonth (year D) (month D)"])
  finally show ?case .
qed

lemma getTimePeriods_day:
  assumes "valid_dayjs D"
  shows "getTimePeriods ''day'' dr D
       = Some (map (day_period D) [1..daysInMonth (year D) (month D)])"
proof -
  have s: "(startOf Month D)\<lparr>date := 1\<rparr> = startOf Month D" by (cases D) simp
  have d: "1 \<le> daysInMonth (year D) (month D)" by (simp add: daysInMonth_def)
  show ?thesis
    using day_loop[OF assms refl order_refl d, of "[]", unfolded s]
    by (simp add: getTimePeriods_def configs_def)
qed

lemma valueOf_startOf_next_day:
  assumes "valid_dayjs D"
  shows "valueOf (startOf Day (add1 Day D)) = valueOf (startOf Day D) + 86400000"
proof -
  have "epoch_day (year (next_day D)) (month (next_day D)) (date (next_day D))
      = epoch_day (year D) (month D) (date D) + 1"
    using assms by (intro epoch_day_next_day) (simp_all add: valid_dayjs_def)
  then show ?thesis by (simp add: valueOf_def algebra_simps)
qed

lemma nth_hour_periods:
  "i < 24 \<Longrightarrow> map (hour_period D) [0..23] ! i = hour_period D (int i)"
  by (simp add: nth_upto)

subsection \<open>Calendar period generator: claims C4 and C6\<close>

text \<open>
  Claim C4. For the granularity \<open>hour\<close> and every local date \<open>D\<close> the generator returns 24
  buckets, in order, with sort keys 0 to 23. The first begins at the local midnight of
  \<open>D\<close>, which is the midnight of the calendar day less eight hours as an instant; each
  bucket ends one millisecond, the resolution of an instant, before the next begins; and
  the last ends one millisecond before the next local midnight, 24 hours after the first
  began. For the granularity \<open>day\<close> it returns one bucket per day of the local month of
  \<open>D\<close>, with sort keys from 1 on: 30 for April, June, September and November, 29 for the
  February of a leap year and 28 for any other February, and 31 otherwise.
\<close>

theorem period_coverage:
  assumes "valid_dayjs D"
  shows "(\<exists>ps. getTimePeriods ''hour'' dr D = Some ps
            \<and> length ps = 24
            \<and> map period ps = [0..23]
            \<and> map local ps = map (\<lambda>h. (startOf Day D)\<lparr>hour := h\<rparr>) [0..23]
            \<and> utcStart (ps ! 0) = valueOf (startOf Day D)
            \<and> valueOf (startOf Day D)
                = epoch_day (year D) (month D) (date D) * 86400000 - 8 * 3600000
            \<and> utcEnd (ps ! 23) + 1 = valueOf (startOf Day (add1 Day D))
            \<and> valueOf (startOf Day (add1 Day D)) = valueOf (startOf Day D) + 86400000
            \<and> (\<forall>i<23. utcEnd (ps ! i) + 1 = utcStart (ps ! Suc i))
            \<and> (\<forall>i<24. utcStart (ps ! i) = valueOf (startOf Day D) + int i * 3600000
                       \<and> utcEnd (ps ! i) = utcStart (ps ! i) + 3599999))
       \<and> (\<exists>qs. getTimePeriods ''day'' dr D = Some qs
            \<and> map period qs = [1..daysInMonth (year D) (month D)]
            \<and> map local qs
                = map (\<lambda>k. (startOf Month D)\<lparr>date := k\<rparr>) [1..daysInMonth (year D) (month D)]
            \<and> int (length qs)
                = (if month D = 1 then (if leap_year (year D) then 29 else 28)
                   else if month D = 3 \<or> month D = 5 \<or> month D = 8 \<or> month D = 10 then 30
                   else 31))"
proof (intro conjI)
  let ?ps = "map (hour_period D) [0..23]"
  have n: "?ps ! i = hour_period D (int i)" if "i < 24" for i
    using that by (rule nth_hour_periods)
  have 1: "length ?ps = 24" by simp
  have 2: "map period ?ps = [0..23]" by (simp add: hour_period_def o_def)
  have 3: "utcStart (?ps ! 0) = valueOf (startOf Day D)"
    by (simp add: n hour_period_def)
  have 4: "valueOf (startOf Day D)
      = epoch_day (year D) (month D) (date D) * 86400000 - 8 * 3600000"
    by (simp add: valueOf_def UTC_OFFSET_MS_def)
  have 5: "valueOf (startOf Day (add1 Day D)) = valueOf (startOf Day D) + 86400000"
    using assms by (rule valueOf_startOf_next_day)
  have 6: "utcEnd (?ps ! 23) + 1 = valueOf (startOf Day (add1 Day D))"
    unfolding 5 by (simp add: n hour_period_def)
  have 7: "\<forall>i<23. utcEnd (?ps ! i) + 1 = utcStart (?ps ! Suc i)"
    by (simp add: n hour_period_def algebra_simps)
  have 8: "\<forall>i<24. utcStart (?ps ! i) = valueOf (startOf Day D) + int i * 3600000
                       \<and> utcEnd (?ps ! i) = utcStart (?ps ! i) + 3599999"
    by (simp add: n hour_period_def)
  have 9: "map local ?ps = map (\<lambda>h. (startOf Day D)\<lparr>hour := h\<rparr>) [0..23]"
    by (simp add: hour_period_def o_def)
  show "\<exists>ps. getTimePeriods ''hour'' dr D = Some ps
            \<and> length ps = 24
            \<and> map period ps = [0..23]
            \<and> map local ps = map (\<lambda>h. (startOf Day D)\<lparr>hour := h\<rparr>) [0..23]
            \<and> utcStart (ps ! 0) = valueOf (startOf Day D)
            \<and> valueOf (startOf Day D)
                = epoch_day (year D) (month D) (date D) * 86400000 - 8 * 3600000
            \<and> utcEnd (ps ! 23) + 1 = valueOf (startOf Day (add1 Day D))
            \<and> valueOf (startOf Day (add1 Day D)) = valueOf (startOf Day D) + 86400000
            \<and> (\<forall>i<23. utcEnd (ps ! i) + 1 = utcStart (ps ! Suc i))
            \<and> (\<forall>i<24. utcStart (ps ! i) = valueOf (startOf Day D) + int i * 3600000
                       \<and> utcEnd (ps ! i) = utcStart (ps ! i) + 3599999)"
    using getTimePeriods_hour[OF assms, of dr] 1 2 3 4 5 6 7 8 9 by blast
next
  let ?qs = "map (day_period D) [1..daysInMonth (year D) (month D)]"
  have 1: "map period ?qs = [1..daysInMonth (year D) (month D)]"
    by (simp add: day_period_def o_def)
  have 2: "int (length ?qs)
      = (if month D = 1 then (if leap_year (year D) then 29 else 28)
         else if month D = 3 \<or> month D = 5 \<or> month D = 8 \<or> month D = 10 then 30
         else 31)"
    by (simp add: daysInMonth_def)
  have 3: "map local ?qs
      = map (\<lambda>k. (startOf Month D)\<lparr>date := k\<rparr>) [1..daysInMonth (year D) (month D)]"
    by (simp add: day_period_def o_def)
  show "\<exists>qs. getTimePeriods ''day'' dr D = Some qs
            \<and> map period qs = [1..daysInMonth (year D) (month D)]
            \<and> map local qs
                = map (\<lambda>k. (startOf Month D)\<lparr>date := k\<rparr>) [1..daysInMonth (year D) (month D)]
            \<and> int (length qs)
                = (if month D = 1 then (if leap_year (year D) then 29 else 28)
                   else if month D = 3 \<or> month D = 5 \<or> month D = 8 \<or> month D = 10 then 30
                   else 31)"
    using getTimePeriods_day[OF assms, of dr] 1 2 3 by blast
qed

text \<open>Claim C4 at 15 February 2024, 10:30 local time: the day runs from
  2024-02-14T16:00:00.000Z to 2024-02-15T15:59:59.999Z, and the month has 29 days.\<close>

theorem period_coverage_witness:
  "\<exists>ps qs.
     getTimePeriods ''hour'' \<lparr>range_start = 0, range_stop = 0\<rparr>
       \<lparr>year = 2024, month = 1, date = 15, hour = 10, minute = 30, second = 0,
        millisecond = 0\<rparr> = Some ps
     \<and> length ps = 24 \<and> map period ps = [0..23]
     \<and> utcStart (ps ! 0) = 1707926400000 \<and> utcEnd (ps ! 23) = 1708012799999
     \<and> getTimePeriods ''day'' \<lparr>range_start = 0, range_stop = 0\<rparr>
       \<lparr>year = 2024, month = 1, date = 15, hour = 10, minute = 30, second = 0,
        millisecond = 0\<rparr> = Some qs
     \<and> length qs = 29"
proof -
  let ?D = "\<lparr>year = 2024, month = 1, date = 15, hour = 10, minute = 30, second = 0,
        millisecond = 0\<rparr>"
  have l: "leap_year 2024" by (simp add: leap_year_def)
  have v: "valid_dayjs ?D" by (simp add: valid_dayjs_def daysInMonth_def l)
  have e: "epoch_day 2024 1 15 = 19768"
    by (simp add: epoch_day_def days_before_year_def days_before_month_def)
  from period_coverage[OF v, of "\<lparr>range_start = 0, range_stop = 0\<rparr>"]
  obtain ps qs where
    ps: "getTimePeriods ''hour'' \<lparr>range_start = 0, range_stop = 0\<rparr> ?D = Some ps"
      "length ps = 24" "map period ps = [0..23]"
      "utcStart (ps ! 0) = valueOf (startOf Day ?D)"
      "utcEnd (ps ! 23) + 1 = valueOf (startOf Day (add1 Day ?D))"
      "valueOf (startOf Day (add1 Day ?D)) = valueOf (startOf Day ?D) + 86400000"
    and qs: "getTimePeriods ''day'' \<lparr>range_start = 0, range_stop = 0\<rparr> ?D = Some qs"
      "int (length qs)
        = (if month ?D = 1 then (if leap_year (year ?D) then 29 else 28)
           else if month ?D = 3 \<or> month ?D = 5 \<or> month ?D = 8 \<or> month ?D = 10 then 30
           else 31)"
    by blast
  have s: "valueOf (startOf Day ?D) = 1707926400000"
    by (simp add: valueOf_def e UTC_OFFSET_MS_def)
  have "utcEnd (ps ! 23) = 1708012799999" using ps(5,6) s by simp
  moreover have "length qs = 29" using qs(2) l by simp
  ultimately show ?thesis using ps(1,2,3,4) qs(1) s by auto
qed





subsection \<open>The data endpoint: claim C8\<close>




end
